theory Spec2Isabelle
  imports Complex_Main
begin

section \<open>The CTC beam-search decoder of radian (radian/decode.py)\<close>

text \<open>
  The decoder works on numpy arrays of floats. Finite floats are modelled as real numbers
  with exact arithmetic; the three IEEE special values that the code can produce (both
  infinities and NaN) are kept as constructors of their own, with the IEEE rules for them.
  Signed zeros and rounding are not modelled. Inputs of the decoder (the probability
  matrix, the distributions of the language model, the thresholds) are finite, hence real.
\<close>

subsection \<open>Numbers, errors and Python slices\<close>

datatype pyfloat = Fin real | PInf | NInf | NaN

datatype error = KeyError | IndexError | ValueError

fun is_finite :: "pyfloat \<Rightarrow> bool" where
  "is_finite (Fin _) = True"
| "is_finite _ = False"

fun fadd :: "pyfloat \<Rightarrow> pyfloat \<Rightarrow> pyfloat" where
  "fadd (Fin a) (Fin b) = Fin (a + b)"
| "fadd NaN _ = NaN"
| "fadd _ NaN = NaN"
| "fadd PInf NInf = NaN"
| "fadd NInf PInf = NaN"
| "fadd PInf _ = PInf"
| "fadd _ PInf = PInf"
| "fadd NInf _ = NInf"
| "fadd _ NInf = NInf"

text \<open>Multiplication and division by a finite number, the only forms the decoder uses.\<close>

fun fmul_fin :: "pyfloat \<Rightarrow> real \<Rightarrow> pyfloat" where
  "fmul_fin (Fin a) b = Fin (a * b)"
| "fmul_fin NaN _ = NaN"
| "fmul_fin PInf b = (if b = 0 then NaN else if 0 < b then PInf else NInf)"
| "fmul_fin NInf b = (if b = 0 then NaN else if 0 < b then NInf else PInf)"

fun fdiv_fin :: "pyfloat \<Rightarrow> real \<Rightarrow> pyfloat" where
  "fdiv_fin (Fin a) b =
     (if b \<noteq> 0 then Fin (a / b)
      else if a = 0 then NaN else if 0 < a then PInf else NInf)"
| "fdiv_fin NaN _ = NaN"
| "fdiv_fin PInf b = (if 0 \<le> b then PInf else NInf)"
| "fdiv_fin NInf b = (if 0 \<le> b then NInf else PInf)"

text \<open>IEEE comparison: every comparison with NaN is false.\<close>

fun fless :: "pyfloat \<Rightarrow> pyfloat \<Rightarrow> bool" where
  "fless (Fin a) (Fin b) = (a < b)"
| "fless NaN _ = False"
| "fless _ NaN = False"
| "fless _ NInf = False"
| "fless NInf _ = True"
| "fless PInf _ = False"
| "fless _ PInf = True"

text \<open>\<open>np.logaddexp\<close>: \<open>log(exp a + exp b)\<close>, with minus infinity as the neutral element.\<close>

fun logaddexp :: "pyfloat \<Rightarrow> pyfloat \<Rightarrow> pyfloat" where
  "logaddexp (Fin a) (Fin b) = Fin (ln (exp a + exp b))"
| "logaddexp NaN _ = NaN"
| "logaddexp _ NaN = NaN"
| "logaddexp PInf _ = PInf"
| "logaddexp _ PInf = PInf"
| "logaddexp NInf b = b"
| "logaddexp a NInf = a"

text \<open>
  \<open>log\<close> of decode.py (here \<open>log_py\<close>): minus infinity at zero, otherwise \<open>math.log\<close>, which raises
  ValueError on a negative argument (and on minus infinity) and passes NaN and plus
  infinity through.
\<close>

fun log_py :: "pyfloat \<Rightarrow> error + pyfloat" where
  "log_py (Fin x) = (if x = 0 then Inr NInf else if x < 0 then Inl ValueError else Inr (Fin (ln x)))"
| "log_py NaN = Inr NaN"
| "log_py PInf = Inr PInf"
| "log_py NInf = Inl ValueError"

text \<open>\<open>xs[i]\<close> for a non-negative index: IndexError out of range.\<close>

definition idx :: "'a list \<Rightarrow> nat \<Rightarrow> error + 'a" where
  "idx xs i = (if i < length xs then Inr (xs ! i) else Inl IndexError)"

text \<open>
  Python's slice \<open>xs[start:stop]\<close> with integer bounds: a negative bound counts from the
  end, and every bound is clipped to the sequence.
\<close>

definition clip_index :: "nat \<Rightarrow> int \<Rightarrow> nat" where
  "clip_index n i = (if i < 0 then nat (max (i + int n) 0) else min (nat i) n)"

definition py_slice :: "'a list \<Rightarrow> int \<Rightarrow> int \<Rightarrow> 'a list" where
  "py_slice xs start stop =
     (let s = clip_index (length xs) start; e = clip_index (length xs) stop
      in take (e - s) (drop s xs))"

definition py_slice_from :: "'a list \<Rightarrow> int \<Rightarrow> 'a list" where
  "py_slice_from xs start = drop (clip_index (length xs) start) xs"

definition py_slice_to :: "'a list \<Rightarrow> int \<Rightarrow> 'a list" where
  "py_slice_to xs stop = take (clip_index (length xs) stop) xs"

subsection \<open>get_context\<close>

definition get_context :: "nat list \<Rightarrow> int \<Rightarrow> bool \<Rightarrow> nat list" where
  "get_context labeling len_context exclude_last =
     (if exclude_last then py_slice labeling (- (len_context + 1)) (- 1)
      else py_slice_from labeling (- len_context))"

subsection \<open>Distributions: combine_dists, normalise, entropy\<close>

definition fsum :: "pyfloat list \<Rightarrow> pyfloat" where
  "fsum xs = foldl fadd (Fin 0) xs"

text \<open>Broadcasting of two one-dimensional arrays under \<open>np.add\<close>.\<close>

definition np_add :: "pyfloat list \<Rightarrow> pyfloat list \<Rightarrow> error + pyfloat list" where
  "np_add xs ys =
     (if length xs = length ys then Inr (map2 fadd xs ys)
      else if length xs = 1 then Inr (map (fadd (hd xs)) ys)
      else if length ys = 1 then Inr (map (\<lambda>x. fadd x (hd ys)) xs)
      else Inl ValueError)"

definition combine_dists :: "real list \<Rightarrow> real list \<Rightarrow> error + pyfloat list" where
  "combine_dists r_dist s_dist =
     (let s_base_prob = sum_list (butlast s_dist);
          s_base_dist = map (\<lambda>x. fdiv_fin (Fin x) s_base_prob) (butlast s_dist)
      in case np_add (map Fin r_dist) s_base_dist of
           Inl e \<Rightarrow> Inl e
         | Inr c_sum \<Rightarrow>
             (let c_avg = map (\<lambda>x. fdiv_fin x 2) c_sum;
                  c_dist = map (\<lambda>x. fmul_fin x s_base_prob) c_avg
              in if s_dist = [] then Inl IndexError
                 else Inr (c_dist @ [Fin (last s_dist)])))"

definition normalise :: "real list \<Rightarrow> real list" where
  "normalise d = (if sum_list d = 0 then d else map (\<lambda>x. x / sum_list d) d)"

definition entropy :: "real list \<Rightarrow> real" where
  "entropy d = - sum_list (map (\<lambda>p. p * ln p) (filter (\<lambda>p. 0 < p) d))"

text \<open>A one-hot distribution: its only entry different from zero is a single 1.\<close>

definition one_hot :: "real list \<Rightarrow> bool" where
  "one_hot d = (filter (\<lambda>p. p \<noteq> 0) d = [1])"

subsection \<open>apply_rna_model\<close>

text \<open>
  The language model is a dictionary from contexts to distributions (an association list,
  looked up with \<open>map_of\<close>), or None. The entropy cache is a dictionary that the function
  updates in place: the model returns the new cache beside the result, also when the call
  raises.
\<close>

type_synonym rna_model = "(nat list \<times> real list) list"
type_synonym cache = "nat list \<rightharpoonup> real"

definition apply_rna_model ::
  "real list \<Rightarrow> nat list \<Rightarrow> rna_model option \<Rightarrow> cache \<Rightarrow> real \<Rightarrow> real \<Rightarrow> real
     \<Rightarrow> (error + pyfloat list) \<times> cache" where
  "apply_rna_model s_dist context model entr_cache s_entropy r_threshold s_threshold =
     (case model of
        None \<Rightarrow> (Inr (map Fin s_dist), entr_cache)
      | Some m \<Rightarrow>
          (case map_of m context of
             None \<Rightarrow> (Inl KeyError, entr_cache)
           | Some r_dist \<Rightarrow>
               (let (r_entropy, entr_cache') =
                      (case entr_cache context of
                         None \<Rightarrow> (entropy r_dist, entr_cache(context \<mapsto> entropy r_dist))
                       | Some e \<Rightarrow> (e, entr_cache))
                in if r_entropy < r_threshold \<and> s_threshold < s_entropy
                   then (combine_dists r_dist s_dist, entr_cache')
                   else (Inr (map Fin s_dist), entr_cache'))))"

subsection \<open>Beam state: BeamEntry and BeamList\<close>

record BeamEntry =
  pr_total :: pyfloat
  pr_non_blank :: pyfloat
  pr_blank :: pyfloat
  labeling :: "nat list"

text \<open>\<open>BeamEntry()\<close>: the three probabilities are \<open>log(0)\<close>, the labeling is empty.\<close>

definition BeamEntry_init :: BeamEntry where
  "BeamEntry_init = \<lparr>pr_total = NInf, pr_non_blank = NInf, pr_blank = NInf, labeling = []\<rparr>"

text \<open>
  \<open>entries\<close> is a \<open>defaultdict(BeamEntry)\<close>: a dictionary in insertion order (the order
  decides ties in \<open>sort_labelings\<close>) in which a missing key reads as a fresh entry.
  \<open>entry_update k f\<close> is an assignment to fields of \<open>entries[k]\<close>: in place when the key
  exists, on a fresh entry appended to the dictionary otherwise.
\<close>

type_synonym BeamList = "(nat list \<times> BeamEntry) list"

definition entry_of :: "BeamList \<Rightarrow> nat list \<Rightarrow> BeamEntry" where
  "entry_of b k = (case map_of b k of None \<Rightarrow> BeamEntry_init | Some e \<Rightarrow> e)"

fun entry_update :: "nat list \<Rightarrow> (BeamEntry \<Rightarrow> BeamEntry) \<Rightarrow> BeamList \<Rightarrow> BeamList" where
  "entry_update k f [] = [(k, f BeamEntry_init)]"
| "entry_update k f ((k', e) # b) =
     (if k' = k then (k', f e) # b else (k', e) # entry_update k f b)"

text \<open>
  \<open>sorted(beams, reverse=True, key=pr_total)\<close>: a stable sort, descending by \<open>pr_total\<close>
  (entries of equal key keep their order), written as an insertion sort with the
  comparison of floats. On keys without NaN this is the list Python returns; the order
  Python gives to NaN keys is not modelled, and no property below depends on it.
\<close>

fun insort_desc :: "BeamEntry \<Rightarrow> BeamEntry list \<Rightarrow> BeamEntry list" where
  "insort_desc x [] = [x]"
| "insort_desc x (y # ys) =
     (if fless (pr_total x) (pr_total y) then y # insort_desc x ys else x # y # ys)"

definition sorted_beams :: "BeamList \<Rightarrow> BeamEntry list" where
  "sorted_beams b = foldr insort_desc (map snd b) []"

definition sort_labelings :: "BeamList \<Rightarrow> nat list list" where
  "sort_labelings b = map labeling (sorted_beams b)"

subsection \<open>beam_search\<close>

definition bindE :: "error + 'a \<Rightarrow> ('a \<Rightarrow> error + 'b) \<Rightarrow> error + 'b" where
  "bindE m f = (case m of Inl e \<Rightarrow> Inl e | Inr x \<Rightarrow> f x)"

text \<open>\<open>log(pr_dist[c])\<close>: the index is read first, then the logarithm is taken.\<close>

definition log_at :: "pyfloat list \<Rightarrow> nat \<Rightarrow> error + pyfloat" where
  "log_at pr_dist c = bindE (idx pr_dist c) log_py"

text \<open>The arguments of \<open>beam_search\<close> that stay fixed during a call.\<close>

record decode_params =
  bases :: string
  beam_width :: int
  lm :: "rna_model option"
  s_threshold :: real
  r_threshold :: real
  len_context :: int

text \<open>The probability matrix: a two-dimensional array of shape \<open>(length rows, chars)\<close>.\<close>

record matrix =
  chars :: nat
  rows :: "real list list"

text \<open>Truth value of \<open>lm\<close> in \<open>if lm and ...\<close>: None and the empty dictionary are false.\<close>

definition truthy :: "rna_model option \<Rightarrow> bool" where
  "truthy m = (case m of None \<Rightarrow> False | Some d \<Rightarrow> d \<noteq> [])"

text \<open>
  The distribution used by a transition: \<open>apply_rna_model\<close> on the row when the guard
  holds, the row itself otherwise.
\<close>

definition choose_dist ::
  "decode_params \<Rightarrow> bool \<Rightarrow> real list \<Rightarrow> real \<Rightarrow> nat list \<Rightarrow> cache
     \<Rightarrow> (error + pyfloat list) \<times> cache" where
  "choose_dist p guard row s_entropy context entr_cache =
     (if guard
      then apply_rna_model row context (lm p) entr_cache s_entropy (r_threshold p) (s_threshold p)
      else (Inr (map Fin row), entr_cache))"

text \<open>COPY BEAM (lines 150 to 175): the labeling persists unchanged.\<close>

definition copy_non_blank ::
  "decode_params \<Rightarrow> real list \<Rightarrow> real \<Rightarrow> BeamList \<Rightarrow> nat list \<Rightarrow> cache
     \<Rightarrow> (error + pyfloat) \<times> cache" where
  "copy_non_blank p row s_entropy last_beam l entr_cache =
     (if l \<noteq> [] then
        (case choose_dist p (truthy (lm p) \<and> len_context p + 1 \<le> int (length l))
                row s_entropy (get_context l (len_context p) True) entr_cache of
           (Inl e, c) \<Rightarrow> (Inl e, c)
         | (Inr pr_dist, c) \<Rightarrow>
             (bindE (log_at pr_dist (last l))
                (\<lambda>lp. Inr (fadd (pr_non_blank (entry_of last_beam l)) lp)), c))
      else (Inr NInf, entr_cache))"

definition copy_beam ::
  "decode_params \<Rightarrow> real list \<Rightarrow> real \<Rightarrow> BeamList \<Rightarrow> nat list \<Rightarrow> BeamList \<Rightarrow> cache
     \<Rightarrow> (error + BeamList) \<times> cache" where
  "copy_beam p row s_entropy last_beam l cur entr_cache =
     (case copy_non_blank p row s_entropy last_beam l entr_cache of
        (Inl e, c) \<Rightarrow> (Inl e, c)
      | (Inr nb, c) \<Rightarrow>
          (bindE (log_at (map Fin row) (length (bases p)))
             (\<lambda>lb. let bl = fadd (pr_total (entry_of last_beam l)) lb
                   in Inr (entry_update l
                        (\<lambda>e. e\<lparr>labeling := l,
                                pr_non_blank := logaddexp (pr_non_blank e) nb,
                                pr_blank := logaddexp (pr_blank e) bl,
                                pr_total := logaddexp (pr_total e) (logaddexp bl nb)\<rparr>)
                        cur)), c))"

text \<open>EXTEND BEAM (lines 186 to 201): the loop over the symbols \<open>c\<close>.\<close>

definition extend_mass :: "BeamList \<Rightarrow> nat list \<Rightarrow> nat \<Rightarrow> pyfloat \<Rightarrow> pyfloat" where
  "extend_mass last_beam l c lp =
     (if l \<noteq> [] \<and> last l = c then fadd (pr_blank (entry_of last_beam l)) lp
      else fadd (pr_total (entry_of last_beam l)) lp)"

fun extend_beam ::
  "BeamList \<Rightarrow> nat list \<Rightarrow> pyfloat list \<Rightarrow> nat list \<Rightarrow> BeamList \<Rightarrow> error + BeamList" where
  "extend_beam last_beam l pr_dist [] cur = Inr cur"
| "extend_beam last_beam l pr_dist (c # cs) cur =
     bindE (log_at pr_dist c)
       (\<lambda>lp. let nb = extend_mass last_beam l c lp
             in extend_beam last_beam l pr_dist cs
                  (entry_update (l @ [c])
                     (\<lambda>e. e\<lparr>labeling := l @ [c],
                             pr_non_blank := logaddexp (pr_non_blank e) nb,
                             pr_total := logaddexp (pr_total e) nb\<rparr>)
                     cur))"

text \<open>The body of the loop over the best labelings: COPY, then EXTEND.\<close>

definition process_labeling ::
  "decode_params \<Rightarrow> nat \<Rightarrow> real list \<Rightarrow> real \<Rightarrow> BeamList \<Rightarrow> nat list \<Rightarrow> BeamList \<Rightarrow> cache
     \<Rightarrow> (error + BeamList) \<times> cache" where
  "process_labeling p n_chars row s_entropy last_beam l cur entr_cache =
     (case copy_beam p row s_entropy last_beam l cur entr_cache of
        (Inl e, c) \<Rightarrow> (Inl e, c)
      | (Inr cur1, c) \<Rightarrow>
          (case choose_dist p (truthy (lm p) \<and> len_context p \<le> int (length l))
                  row s_entropy (get_context l (len_context p) False) c of
             (Inl e, c') \<Rightarrow> (Inl e, c')
           | (Inr pr_dist, c') \<Rightarrow>
               (extend_beam last_beam l pr_dist [0..<n_chars - 1] cur1, c')))"

fun labelings_loop ::
  "decode_params \<Rightarrow> nat \<Rightarrow> real list \<Rightarrow> real \<Rightarrow> BeamList \<Rightarrow> nat list list \<Rightarrow> BeamList \<Rightarrow> cache
     \<Rightarrow> (error + BeamList) \<times> cache" where
  "labelings_loop p n_chars row s_entropy last_beam [] cur entr_cache = (Inr cur, entr_cache)"
| "labelings_loop p n_chars row s_entropy last_beam (l # ls) cur entr_cache =
     (case process_labeling p n_chars row s_entropy last_beam l cur entr_cache of
        (Inl e, c) \<Rightarrow> (Inl e, c)
      | (Inr cur', c) \<Rightarrow> labelings_loop p n_chars row s_entropy last_beam ls cur' c)"

text \<open>One pass of the loop over the time-steps (lines 141 to 204).\<close>

definition timestep ::
  "decode_params \<Rightarrow> nat \<Rightarrow> real list \<times> real \<Rightarrow> BeamList \<Rightarrow> cache
     \<Rightarrow> (error + BeamList) \<times> cache" where
  "timestep p n_chars r last_beam entr_cache =
     labelings_loop p n_chars (fst r) (snd r) last_beam
       (py_slice_to (sort_labelings last_beam) (beam_width p)) [] entr_cache"

fun timesteps_loop ::
  "decode_params \<Rightarrow> nat \<Rightarrow> (real list \<times> real) list \<Rightarrow> BeamList \<Rightarrow> cache
     \<Rightarrow> (error + BeamList) \<times> cache" where
  "timesteps_loop p n_chars [] last_beam entr_cache = (Inr last_beam, entr_cache)"
| "timesteps_loop p n_chars (r # rs) last_beam entr_cache =
     (case timestep p n_chars r last_beam entr_cache of
        (Inl e, c) \<Rightarrow> (Inl e, c)
      | (Inr cur, c) \<Rightarrow> timesteps_loop p n_chars rs cur c)"

text \<open>The beam state before the first time-step: the empty labeling, with \<open>log(1)\<close>.\<close>

definition initial_beam :: BeamList where
  "initial_beam = [([], BeamEntry_init\<lparr>pr_blank := Fin (ln 1), pr_total := Fin (ln 1)\<rparr>)]"

text \<open>\<open>s_entropies\<close>, paired with the rows they belong to.\<close>

definition rows_with_entropies :: "matrix \<Rightarrow> (real list \<times> real) list" where
  "rows_with_entropies mat = map (\<lambda>row. (row, entropy (normalise (butlast row)))) (rows mat)"

text \<open>The beam state after the first \<open>t\<close> time-steps of the call.\<close>

definition beam_state_at ::
  "matrix \<Rightarrow> decode_params \<Rightarrow> cache \<Rightarrow> nat \<Rightarrow> (error + BeamList) \<times> cache" where
  "beam_state_at mat p entr_cache t =
     timesteps_loop p (chars mat) (take t (rows_with_entropies mat)) initial_beam entr_cache"

fun join_bases :: "string \<Rightarrow> nat list \<Rightarrow> error + string" where
  "join_bases bs [] = Inr []"
| "join_bases bs (label # ls) =
     bindE (idx bs label) (\<lambda>ch. bindE (join_bases bs ls) (\<lambda>s. Inr (ch # s)))"

definition beam_search :: "matrix \<Rightarrow> decode_params \<Rightarrow> cache \<Rightarrow> (error + string) \<times> cache" where
  "beam_search mat p entr_cache =
     (case beam_state_at mat p entr_cache (length (rows mat)) of
        (Inl e, c) \<Rightarrow> (Inl e, c)
      | (Inr final, c) \<Rightarrow>
          (case sort_labelings final of
             [] \<Rightarrow> (Inl IndexError, c)
           | best_labeling # _ \<Rightarrow> (join_bases (bases p) best_labeling, c)))"

text \<open>
  The total probability of the best final labeling: \<open>pr_total\<close> of the first of the sorted
  final beams, when the search succeeds.
\<close>

definition final_best_total :: "matrix \<Rightarrow> decode_params \<Rightarrow> cache \<Rightarrow> pyfloat option" where
  "final_best_total mat p entr_cache =
     (case beam_state_at mat p entr_cache (length (rows mat)) of
        (Inl e, c) \<Rightarrow> None
      | (Inr final, c) \<Rightarrow>
          (case sorted_beams final of [] \<Rightarrow> None | best # _ \<Rightarrow> Some (pr_total best)))"

subsection \<open>Notions used to state the properties\<close>

text \<open>
  The log-probability of a probability \<open>q\<close>, as \<open>log\<close> of decode.py computes it. The beam
  search on a matrix of non-negative numbers only produces values of this form.
\<close>

definition lp :: "real \<Rightarrow> pyfloat" where
  "lp q = (if q = 0 then NInf else Fin (ln q))"

text \<open>
  The contract of the entropy cache for a model: every entry is the entropy of the
  model's distribution for that context. \<open>apply_rna_model\<close> stores nothing else, so every
  cache it has built (the empty one to begin with) satisfies it.
\<close>

definition cache_ok :: "rna_model \<Rightarrow> cache \<Rightarrow> bool" where
  "cache_ok m c = (\<forall>ctx e. c ctx = Some e \<longrightarrow> (\<exists>r. map_of m ctx = Some r \<and> e = entropy r))"

text \<open>The invariant of a beam entry, and of all entries of a beam state.\<close>

definition entry_inv :: "BeamEntry \<Rightarrow> bool" where
  "entry_inv e = (pr_total e = logaddexp (pr_blank e) (pr_non_blank e))"

definition beam_inv :: "BeamList \<Rightarrow> bool" where
  "beam_inv b = (\<forall>(k, e)\<in>set b. entry_inv e)"

text \<open>
  The non-blank part of the blend in closed form, for a non-blank mass \<open>S\<close> of the signal
  distribution: the average of the model's distribution and the renormalised signal
  distribution, scaled back to \<open>S\<close>.
\<close>

definition blend :: "real \<Rightarrow> real list \<Rightarrow> real list \<Rightarrow> real list" where
  "blend S r bs = map2 (\<lambda>a b. (a + b / S) / 2 * S) r bs"

text \<open>
  Log-probabilities that are numbers: a finite value or minus infinity. \<open>fle\<close> is the
  order on them, written with the comparison \<open>fless\<close> that the sort uses.
\<close>

fun clean :: "pyfloat \<Rightarrow> bool" where
  "clean (Fin _) = True"
| "clean NInf = True"
| "clean _ = False"

definition fle :: "pyfloat \<Rightarrow> pyfloat \<Rightarrow> bool" where
  "fle a b = (clean a \<and> clean b \<and> \<not> fless b a)"



text \<open>The contract of the entropy cache for the model of a call.\<close>

definition lm_cache_ok :: "decode_params \<Rightarrow> cache \<Rightarrow> bool" where
  "lm_cache_ok p c = (case lm p of None \<Rightarrow> True | Some m \<Rightarrow> cache_ok m c)"













text \<open>
  Arrays without NaN and infinities; the condition under which every blend of a search is
  such an array (with a model, every row has non-blank mass); and the comparison of two
  beam states, entry by entry.
\<close>

definition fin_list :: "pyfloat list \<Rightarrow> bool" where
  "fin_list xs = (\<forall>x\<in>set xs. is_finite x)"



section \<open>Properties\<close>

subsection \<open>get_context\<close>

lemma clip_index_neg: "0 < k \<Longrightarrow> k \<le> n \<Longrightarrow> clip_index n (- int k) = n - k"
  by (simp add: clip_index_def max_def) linarith

text \<open>
  For a positive context length the context is the suffix of that length, and with
  \<open>exclude_last\<close> the symbols just before the last one.
\<close>

lemma get_context_suffix:
  "0 < n \<Longrightarrow> n \<le> length l \<Longrightarrow> get_context l (int n) False = drop (length l - n) l"
  using clip_index_neg [of n "length l"] by (simp add: get_context_def py_slice_from_def)

lemma get_context_preceding:
  assumes "n + 1 \<le> length l"
  shows "get_context l (int n) True = take n (drop (length l - (n + 1)) l)"
proof -
  have e: "- (int n + 1) = - int (n + 1)" by simp
  have a: "clip_index (length l) (- (int n + 1)) = length l - (n + 1)"
    unfolding e by (rule clip_index_neg) (use assms in auto)
  have b: "clip_index (length l) (- 1) = length l - 1"
    using clip_index_neg [of 1 "length l"] assms by simp
  have c: "length l - 1 - (length l - (n + 1)) = n"
    using assms by linarith
  show ?thesis
    unfolding get_context_def py_slice_def Let_def a b c by simp
qed

text \<open>
  Claim C7. With \<open>exclude_last=False\<close> the context should be the last \<open>len_context\<close>
  symbols of the labeling, hence empty for context length 0. The code slices
  \<open>labeling[-len_context:]\<close>, and \<open>labeling[-0:]\<close> is the whole labeling: for the labeling
  \<open>(0, 1)\<close> and context length 0 it returns \<open>(0, 1)\<close>, not the empty context.
\<close>

theorem get_context_zero_returns_labeling:
  "get_context [0, 1] 0 False = [0, 1] \<and> get_context [0, 1] 0 False \<noteq> []"
  by (simp add: get_context_def py_slice_from_def clip_index_def)

subsection \<open>apply_rna_model\<close>







text \<open>
  Claim C5, as amended. When the model has no entry for the context, \<open>apply_rna_model\<close>
  raises KeyError and leaves the entropy cache as it was; there is no fallback to the
  signal distribution.
\<close>

theorem apply_rna_model_unmodelled_context:
  "map_of m context = None \<Longrightarrow>
     apply_rna_model s_dist context (Some m) entr_cache s_entropy r_th s_th
       = (Inl KeyError, entr_cache)"
  by (simp add: apply_rna_model_def)

text \<open>Claim C5, witness: a model with an entry for the context \<open>(0)\<close>, asked for \<open>(1)\<close>.\<close>

theorem apply_rna_model_unmodelled_context_witness:
  "map_of [([0::nat], [1, 0::real])] [1] = None
   \<and> apply_rna_model [1/2, 1/4, 1/4] [1] (Some [([0], [1, 0])]) Map.empty 1 (1/2) 0
       = (Inl KeyError, Map.empty)"
  using apply_rna_model_unmodelled_context [of "[([0], [1, 0])]" "[1]" "[1/2, 1/4, 1/4]"
          Map.empty 1 "1/2" 0]
  by simp

subsection \<open>beam_search on an empty matrix\<close>

text \<open>
  Claim C9. For a probability matrix without rows (T = 0) \<open>beam_search\<close> returns the empty
  string: no time-step runs, the final beam state is the initial one, whose only labeling
  is the empty one, and that labeling is decoded.
\<close>

theorem beam_search_empty_matrix:
  "beam_search \<lparr>chars = c, rows = []\<rparr> p entr_cache = (Inr [], entr_cache)
   \<and> beam_state_at \<lparr>chars = c, rows = []\<rparr> p entr_cache 0 = (Inr initial_beam, entr_cache)
   \<and> map fst initial_beam = [[]]"
  by (simp add: beam_search_def beam_state_at_def rows_with_entropies_def initial_beam_def
      sort_labelings_def sorted_beams_def BeamEntry_init_def)

subsection \<open>entropy\<close>

lemma term_nonpos: "0 < p \<Longrightarrow> p \<le> 1 \<Longrightarrow> p * ln p \<le> (0::real)"
  by (simp add: mult_le_0_iff)

lemma entropy_terms_nonpos:
  assumes "\<forall>p\<in>set d. p \<le> (1::real)"
  shows "\<forall>x\<in>set (map (\<lambda>p. p * ln p) (filter (\<lambda>p. 0 < p) d)). x \<le> 0"
  using assms by (auto intro: term_nonpos)

lemma entropy_nonneg:
  assumes "\<forall>p\<in>set d. p \<le> 1"
  shows "0 \<le> entropy d"
proof -
  have "sum_list (map (\<lambda>p. p * ln p) (filter (\<lambda>p. 0 < p) d)) \<le> 0"
    by (rule sum_list_nonpos) (use entropy_terms_nonpos [OF assms] in blast)
  then show ?thesis by (simp add: entropy_def)
qed

lemma sum_list_nonpos_eq_0_iff:
  fixes xs :: "real list"
  assumes "\<forall>x\<in>set xs. x \<le> 0"
  shows "sum_list xs = 0 \<longleftrightarrow> (\<forall>x\<in>set xs. x = 0)"
proof -
  have "sum_list (map uminus xs) = 0 \<longleftrightarrow> (\<forall>x\<in>set (map uminus xs). x = 0)"
    by (rule sum_list_nonneg_eq_0_iff) (use assms in auto)
  moreover have "sum_list (map uminus xs) = - sum_list xs"
    by (induction xs) auto
  ultimately show ?thesis by auto
qed

lemma entropy_zero_iff:
  assumes "\<forall>p\<in>set d. p \<le> 1"
  shows "entropy d = 0 \<longleftrightarrow> (\<forall>p\<in>set d. p \<le> 0 \<or> p = 1)"
proof -
  have "entropy d = 0 \<longleftrightarrow> (\<forall>x\<in>set (map (\<lambda>p. p * ln p) (filter (\<lambda>p. 0 < p) d)). x = 0)"
    unfolding entropy_def
    using sum_list_nonpos_eq_0_iff [OF entropy_terms_nonpos [OF assms]] by simp
  also have "\<dots> \<longleftrightarrow> (\<forall>p\<in>set d. 0 < p \<longrightarrow> p = 1)"
    by auto
  also have "\<dots> \<longleftrightarrow> (\<forall>p\<in>set d. p \<le> 0 \<or> p = 1)"
    by (auto simp: not_le [symmetric])
  finally show ?thesis .
qed

lemma member_le_sum_list_real:
  fixes d :: "real list"
  assumes "\<forall>p\<in>set d. 0 \<le> p" and "x \<in> set d"
  shows "x \<le> sum_list d"
  using assms
proof (induction d)
  case Nil
  then show ?case by simp
next
  case (Cons a d)
  have "0 \<le> sum_list d" by (rule sum_list_nonneg) (use Cons.prems in auto)
  then show ?case using Cons by auto
qed

lemma sum_list_filter_nonzero:
  fixes d :: "real list"
  shows "sum_list (filter (\<lambda>p. p \<noteq> 0) d) = sum_list d"
  by (induction d) auto

lemma zero_one_list:
  fixes xs :: "real list"
  assumes "\<forall>p\<in>set xs. p = 1"
  shows "sum_list xs = real (length xs)"
  using assms by (induction xs) auto

lemma one_hot_iff:
  assumes nn: "\<forall>p\<in>set d. 0 \<le> p" and s: "sum_list d = 1"
  shows "one_hot d \<longleftrightarrow> (\<forall>p\<in>set d. p \<le> 0 \<or> p = 1)"
proof
  assume "one_hot d"
  then have f: "filter (\<lambda>p. p \<noteq> 0) d = [1]" by (simp add: one_hot_def)
  show "\<forall>p\<in>set d. p \<le> 0 \<or> p = 1"
  proof
    fix p assume p: "p \<in> set d"
    show "p \<le> 0 \<or> p = 1"
    proof (cases "p = 0")
      case True then show ?thesis by simp
    next
      case False
      with p have "p \<in> set (filter (\<lambda>p. p \<noteq> 0) d)" by simp
      then show ?thesis unfolding f by simp
    qed
  qed
next
  assume a: "\<forall>p\<in>set d. p \<le> 0 \<or> p = 1"
  let ?f = "filter (\<lambda>p. p \<noteq> 0) d"
  have ones: "\<forall>p\<in>set ?f. p = 1"
    using a nn by fastforce
  have "real (length ?f) = sum_list ?f" using zero_one_list [OF ones] by simp
  also have "\<dots> = 1" using s by (simp add: sum_list_filter_nonzero)
  finally have len: "length ?f = 1" by simp
  then obtain x where x: "?f = [x]" by (cases ?f) auto
  with ones have "x = 1" by (metis list.set_intros(1))
  with x show "one_hot d" by (simp add: one_hot_def)
qed

lemma entropy_drops_zeros: "entropy (filter (\<lambda>p. p \<noteq> 0) d) = entropy d"
proof -
  have "filter (\<lambda>p. 0 < p) (filter (\<lambda>p. p \<noteq> 0) d) = filter (\<lambda>p. 0 < p) d"
    by (induction d) auto
  then show ?thesis by (simp add: entropy_def)
qed

subsection \<open>combine_dists\<close>

lemma np_add_same_length:
  "length xs = length ys \<Longrightarrow> np_add xs ys = Inr (map2 fadd xs ys)"
  by (simp add: np_add_def)

lemma blend_nan: "fmul_fin (fdiv_fin (fadd (Fin a) (fdiv_fin (Fin b) 0)) 2) 0 = NaN"
  by simp

lemma blend_fin:
  "S \<noteq> 0 \<Longrightarrow> fmul_fin (fdiv_fin (fadd (Fin a) (fdiv_fin (Fin b) S)) 2) S = Fin ((a + b / S) / 2 * S)"
  by simp

lemma combine_dists_map2:
  assumes "s \<noteq> []" and "length r = length s - 1"
  shows "combine_dists r s =
    Inr (map2 (\<lambda>a b. fmul_fin (fdiv_fin (fadd (Fin a) (fdiv_fin (Fin b) (sum_list (butlast s)))) 2)
                 (sum_list (butlast s))) r (butlast s) @ [Fin (last s)])"
proof -
  have len: "length (map Fin r) = length (map (\<lambda>x. fdiv_fin (Fin x) (sum_list (butlast s))) (butlast s))"
    using assms by simp
  show ?thesis
    unfolding combine_dists_def Let_def np_add_same_length [OF len]
    using assms(1) by (simp add: zip_map1 zip_map2 case_prod_unfold o_def)
qed

lemma combine_dists_zero_mass:
  assumes "s \<noteq> []" and "length r = length s - 1" and "sum_list (butlast s) = 0"
  shows "combine_dists r s = Inr (replicate (length r) NaN @ [Fin (last s)])"
proof -
  have "map2 (\<lambda>a b. fmul_fin (fdiv_fin (fadd (Fin a) (fdiv_fin (Fin b) 0)) 2) 0) r (butlast s)
        = map (\<lambda>x. NaN) (zip r (butlast s))"
    by (simp only: blend_nan case_prod_unfold)
  also have "\<dots> = replicate (length r) NaN"
    using assms(2) by (simp add: map_replicate_const)
  finally show ?thesis
    using combine_dists_map2 [OF assms(1,2)] assms(3) by simp
qed

lemma combine_dists_nonzero_mass:
  assumes "s \<noteq> []" and "length r = length s - 1" and "sum_list (butlast s) \<noteq> 0"
  shows "combine_dists r s = Inr (map Fin (blend (sum_list (butlast s)) r (butlast s) @ [last s]))"
proof -
  have "map2 (\<lambda>a b. fmul_fin (fdiv_fin (fadd (Fin a) (fdiv_fin (Fin b) (sum_list (butlast s)))) 2)
                 (sum_list (butlast s))) r (butlast s)
        = map Fin (blend (sum_list (butlast s)) r (butlast s))"
    using assms(3) by (simp add: blend_def blend_fin case_prod_unfold o_def)
  then show ?thesis
    using combine_dists_map2 [OF assms(1,2)] by simp
qed

lemma sum_list_blend:
  assumes "length r = length bs"
  shows "sum_list (blend S r bs) = (sum_list r + sum_list bs / S) / 2 * S"
  using assms unfolding blend_def
  by (induction r bs rule: list_induct2) (auto simp: algebra_simps add_divide_distrib)

lemma combine_dists_blank:
  assumes "combine_dists r s = Inr xs"
  shows "xs \<noteq> [] \<and> last xs = Fin (last s)"
  using assms unfolding combine_dists_def Let_def
  by (auto split: sum.splits if_splits)

subsection \<open>The invariant of the beam entries\<close>

lemma logaddexp_commute: "logaddexp a b = logaddexp b a"
  by (cases a; cases b) (simp_all add: add.commute)

lemma logaddexp_assoc: "logaddexp (logaddexp a b) c = logaddexp a (logaddexp b c)"
proof (cases a; cases b; cases c)
  fix x y z
  assume "a = Fin x" "b = Fin y" "c = Fin z"
  moreover have "0 < exp x + exp y" "0 < exp y + exp z"
    by (simp_all add: add_pos_pos)
  ultimately show ?thesis by (simp add: add.assoc)
qed simp_all

lemma logaddexp_left_commute: "logaddexp a (logaddexp b c) = logaddexp b (logaddexp a c)"
  by (metis logaddexp_assoc logaddexp_commute)

lemmas logaddexp_ac = logaddexp_assoc logaddexp_commute logaddexp_left_commute

lemma map_of_entry_update:
  "map_of (entry_update k f b) = (map_of b)(k \<mapsto> f (entry_of b k))"
  by (induction b) (auto simp: entry_of_def fun_eq_iff)

lemma entry_of_entry_update:
  "entry_of (entry_update k f b) k' = (if k' = k then f (entry_of b k) else entry_of b k')"
  by (simp add: entry_of_def [of "entry_update k f b"] map_of_entry_update) (simp add: entry_of_def)

lemma beam_inv_entry_update:
  assumes "beam_inv b" and "\<And>e. entry_inv e \<Longrightarrow> entry_inv (f e)"
  shows "beam_inv (entry_update k f b)"
proof -
  have i: "entry_inv BeamEntry_init" by (simp add: entry_inv_def BeamEntry_init_def)
  show ?thesis using assms(1)
    by (induction b) (auto simp: beam_inv_def assms(2) i split: if_splits)
qed

lemma entry_inv_copy:
  "entry_inv e \<Longrightarrow>
   entry_inv (e\<lparr>labeling := l, pr_non_blank := logaddexp (pr_non_blank e) nb,
               pr_blank := logaddexp (pr_blank e) bl,
               pr_total := logaddexp (pr_total e) (logaddexp bl nb)\<rparr>)"
  by (simp add: entry_inv_def logaddexp_ac)

lemma entry_inv_extend:
  "entry_inv e \<Longrightarrow>
   entry_inv (e\<lparr>labeling := l, pr_non_blank := logaddexp (pr_non_blank e) nb,
               pr_total := logaddexp (pr_total e) nb\<rparr>)"
  by (simp add: entry_inv_def logaddexp_ac)

lemma beam_inv_extend_beam:
  "beam_inv cur \<Longrightarrow> extend_beam last_beam l pr_dist cs cur = Inr cur' \<Longrightarrow> beam_inv cur'"
proof (induction cs arbitrary: cur)
  case Nil
  then show ?case by simp
next
  case (Cons c cs)
  from Cons.prems(2) obtain v where v: "log_at pr_dist c = Inr v"
    by (cases "log_at pr_dist c") (auto simp: bindE_def)
  let ?cur = "entry_update (l @ [c])
       (\<lambda>e. e\<lparr>labeling := l @ [c],
               pr_non_blank := logaddexp (pr_non_blank e) (extend_mass last_beam l c v),
               pr_total := logaddexp (pr_total e) (extend_mass last_beam l c v)\<rparr>) cur"
  have "beam_inv ?cur"
    by (rule beam_inv_entry_update [OF Cons.prems(1)]) (rule entry_inv_extend)
  moreover have "extend_beam last_beam l pr_dist cs ?cur = Inr cur'"
    using Cons.prems(2) v by (simp add: bindE_def Let_def)
  ultimately show ?case by (rule Cons.IH)
qed

lemma beam_inv_copy_beam:
  assumes "beam_inv cur" and "copy_beam p row s_e last_beam l cur ch = (Inr cur', ch')"
  shows "beam_inv cur'"
proof -
  from assms(2) obtain nb bl where
    "cur' = entry_update l
        (\<lambda>e. e\<lparr>labeling := l, pr_non_blank := logaddexp (pr_non_blank e) nb,
                pr_blank := logaddexp (pr_blank e) bl,
                pr_total := logaddexp (pr_total e) (logaddexp bl nb)\<rparr>) cur"
    by (auto simp: copy_beam_def bindE_def Let_def split: prod.splits sum.splits)
  then show ?thesis
    using beam_inv_entry_update [OF assms(1)] entry_inv_copy by simp
qed

lemma beam_inv_process_labeling:
  assumes "beam_inv cur"
    and "process_labeling p n row s_e last_beam l cur ch = (Inr cur', ch')"
  shows "beam_inv cur'"
proof -
  from assms(2) obtain cur1 c1 pr_dist where
    c: "copy_beam p row s_e last_beam l cur ch = (Inr cur1, c1)" and
    e: "extend_beam last_beam l pr_dist [0..<n - 1] cur1 = Inr cur'"
    by (auto simp: process_labeling_def split: prod.splits sum.splits)
  from beam_inv_copy_beam [OF assms(1) c] have "beam_inv cur1" .
  then show ?thesis using e by (rule beam_inv_extend_beam)
qed

lemma beam_inv_labelings_loop:
  "beam_inv cur \<Longrightarrow> labelings_loop p n row s_e last_beam ls cur ch = (Inr cur', ch')
     \<Longrightarrow> beam_inv cur'"
proof (induction ls arbitrary: cur ch)
  case Nil
  then show ?case by simp
next
  case (Cons l ls)
  from Cons.prems(2) obtain cur1 c1 where
    s: "process_labeling p n row s_e last_beam l cur ch = (Inr cur1, c1)" and
    r: "labelings_loop p n row s_e last_beam ls cur1 c1 = (Inr cur', ch')"
    by (auto split: prod.splits sum.splits)
  from beam_inv_process_labeling [OF Cons.prems(1) s] have "beam_inv cur1" .
  then show ?case using r by (rule Cons.IH)
qed

lemma beam_inv_timestep:
  assumes "timestep p n r last_beam ch = (Inr cur, ch')"
  shows "beam_inv cur"
proof -
  have "beam_inv []" by (simp add: beam_inv_def)
  then show ?thesis using assms unfolding timestep_def by (rule beam_inv_labelings_loop)
qed

lemma beam_inv_timesteps_loop:
  "beam_inv b \<Longrightarrow> timesteps_loop p n rs b ch = (Inr b', ch') \<Longrightarrow> beam_inv b'"
proof (induction rs arbitrary: b ch)
  case Nil
  then show ?case by simp
next
  case (Cons r rs)
  from Cons.prems(2) obtain cur c1 where
    s: "timestep p n r b ch = (Inr cur, c1)" and
    l: "timesteps_loop p n rs cur c1 = (Inr b', ch')"
    by (auto split: prod.splits sum.splits)
  from beam_inv_timestep [OF s] show ?case using l by (rule Cons.IH)
qed

lemma beam_inv_initial: "beam_inv initial_beam"
  by (simp add: beam_inv_def initial_beam_def entry_inv_def BeamEntry_init_def)

subsection \<open>The EXTEND loop\<close>

lemma extend_beam_Cons:
  assumes "extend_beam last_beam l pr_dist (c # cs) cur = Inr cur'"
  obtains v where "log_at pr_dist c = Inr v"
    and "extend_beam last_beam l pr_dist cs
           (entry_update (l @ [c])
              (\<lambda>e. e\<lparr>labeling := l @ [c],
                      pr_non_blank := logaddexp (pr_non_blank e) (extend_mass last_beam l c v),
                      pr_total := logaddexp (pr_total e) (extend_mass last_beam l c v)\<rparr>) cur)
         = Inr cur'"
  using assms by (cases "log_at pr_dist c") (auto simp: bindE_def Let_def)

lemma extend_beam_other:
  "extend_beam last_beam l pr_dist cs cur = Inr cur' \<Longrightarrow> \<forall>c\<in>set cs. k \<noteq> l @ [c]
     \<Longrightarrow> entry_of cur' k = entry_of cur k"
proof (induction cs arbitrary: cur)
  case Nil
  then show ?case by simp
next
  case (Cons c cs)
  from Cons.prems(1) obtain v where
    r: "extend_beam last_beam l pr_dist cs
           (entry_update (l @ [c])
              (\<lambda>e. e\<lparr>labeling := l @ [c],
                      pr_non_blank := logaddexp (pr_non_blank e) (extend_mass last_beam l c v),
                      pr_total := logaddexp (pr_total e) (extend_mass last_beam l c v)\<rparr>) cur)
         = Inr cur'"
    by (rule extend_beam_Cons)
  have "entry_of cur' k = entry_of (entry_update (l @ [c])
              (\<lambda>e. e\<lparr>labeling := l @ [c],
                      pr_non_blank := logaddexp (pr_non_blank e) (extend_mass last_beam l c v),
                      pr_total := logaddexp (pr_total e) (extend_mass last_beam l c v)\<rparr>) cur) k"
    using r Cons.prems(2) by (intro Cons.IH) auto
  also have "\<dots> = entry_of cur k"
    using Cons.prems(2) by (simp add: entry_of_entry_update)
  finally show ?case .
qed

lemma extend_beam_entry:
  "extend_beam last_beam l pr_dist cs cur = Inr cur' \<Longrightarrow> distinct cs \<Longrightarrow> c \<in> set cs \<Longrightarrow>
     \<exists>v. log_at pr_dist c = Inr v \<and>
         entry_of cur' (l @ [c]) =
           (entry_of cur (l @ [c]))
             \<lparr>labeling := l @ [c],
              pr_non_blank := logaddexp (pr_non_blank (entry_of cur (l @ [c])))
                                (extend_mass last_beam l c v),
              pr_total := logaddexp (pr_total (entry_of cur (l @ [c])))
                            (extend_mass last_beam l c v)\<rparr>"
proof (induction cs arbitrary: cur)
  case Nil
  then show ?case by simp
next
  case (Cons d cs)
  from Cons.prems(1) obtain v where
    v: "log_at pr_dist d = Inr v" and
    r: "extend_beam last_beam l pr_dist cs
           (entry_update (l @ [d])
              (\<lambda>e. e\<lparr>labeling := l @ [d],
                      pr_non_blank := logaddexp (pr_non_blank e) (extend_mass last_beam l d v),
                      pr_total := logaddexp (pr_total e) (extend_mass last_beam l d v)\<rparr>) cur)
         = Inr cur'"
    by (rule extend_beam_Cons)
  show ?case
  proof (cases "c = d")
    case True
    have "\<forall>x\<in>set cs. l @ [c] \<noteq> l @ [x]"
      using Cons.prems(2) True by auto
    from extend_beam_other [OF r this] v True show ?thesis
      by (simp add: entry_of_entry_update)
  next
    case False
    with Cons.prems have "distinct cs" "c \<in> set cs" by auto
    from Cons.IH [OF r this] False show ?thesis
      by (simp add: entry_of_entry_update)
  qed
qed

subsection \<open>The beam width\<close>

lemma choose_dist_beam_width [simp]:
  "choose_dist (p\<lparr>beam_width := k\<rparr>) = choose_dist p"
  by (simp add: choose_dist_def fun_eq_iff)

lemma copy_non_blank_beam_width [simp]:
  "copy_non_blank (p\<lparr>beam_width := k\<rparr>) = copy_non_blank p"
  by (simp add: copy_non_blank_def fun_eq_iff cong: prod.case_cong sum.case_cong if_cong)

lemma copy_beam_beam_width [simp]:
  "copy_beam (p\<lparr>beam_width := k\<rparr>) = copy_beam p"
  by (simp add: copy_beam_def fun_eq_iff cong: prod.case_cong sum.case_cong if_cong)

lemma process_labeling_beam_width [simp]:
  "process_labeling (p\<lparr>beam_width := k\<rparr>) = process_labeling p"
  by (simp add: process_labeling_def fun_eq_iff cong: prod.case_cong sum.case_cong if_cong)

lemma labelings_loop_beam_width [simp]:
  "labelings_loop (p\<lparr>beam_width := k\<rparr>) n row s_e last_beam ls cur ch
     = labelings_loop p n row s_e last_beam ls cur ch"
  by (induction ls arbitrary: cur ch) (simp_all split: prod.splits sum.splits)







subsection \<open>Evaluation on probabilities\<close>

lemma lp_zero: "NInf = lp 0"
  by (simp add: lp_def)

lemma lp_one: "Fin 0 = lp 1"
  by (simp add: lp_def)

lemma log_py_lp: "0 \<le> x \<Longrightarrow> log_py (Fin x) = Inr (lp x)"
  by (simp add: lp_def)

lemma fadd_lp: "0 \<le> a \<Longrightarrow> 0 \<le> b \<Longrightarrow> fadd (lp a) (lp b) = lp (a * b)"
  by (auto simp: lp_def ln_mult_pos)

lemma logaddexp_lp: "0 \<le> a \<Longrightarrow> 0 \<le> b \<Longrightarrow> logaddexp (lp a) (lp b) = lp (a + b)"
  by (auto simp: lp_def add_nonneg_eq_0_iff)

lemma fless_lp: "0 \<le> a \<Longrightarrow> 0 \<le> b \<Longrightarrow> fless (lp a) (lp b) = (a < b)"
  by (auto simp: lp_def)

lemmas lp_simps = lp_zero lp_one log_py_lp fadd_lp logaddexp_lp fless_lp

lemmas beam_defs = final_best_total_def beam_search_def beam_state_at_def
  rows_with_entropies_def initial_beam_def timestep_def process_labeling_def copy_beam_def
  copy_non_blank_def choose_dist_def truthy_def extend_mass_def log_at_def idx_def bindE_def
  sort_labelings_def sorted_beams_def py_slice_to_def clip_index_def entry_of_def
  BeamEntry_init_def Let_def

lemma upt_0_2: "[0..<2] = [0, 1]"
  by (simp add: upt_rec)

section \<open>The claims about the distributions\<close>

text \<open>
  Claim C8, as amended. For every probability distribution \<open>d\<close> (entries not negative,
  sum 1) the entropy is not negative, and it is 0 if and only if \<open>d\<close> is one-hot; entries
  equal to zero contribute nothing (removing them leaves the entropy unchanged). The
  function is total: it never fails.
\<close>

theorem entropy_distribution:
  assumes "\<forall>p\<in>set d. 0 \<le> p" and "sum_list d = 1"
  shows "0 \<le> entropy d \<and> (entropy d = 0 \<longleftrightarrow> one_hot d)
         \<and> entropy (filter (\<lambda>p. p \<noteq> 0) d) = entropy d"
proof -
  have le1: "\<forall>p\<in>set d. p \<le> 1"
    using member_le_sum_list_real [OF assms(1)] assms(2) by auto
  show ?thesis
    using entropy_nonneg [OF le1] entropy_zero_iff [OF le1] one_hot_iff [OF assms]
      entropy_drops_zeros [of d] by simp
qed

text \<open>Claim C8, witness: the distribution \<open>(1/2, 1/2, 0)\<close>, with positive entropy.\<close>

theorem entropy_distribution_witness:
  "sum_list [1/2, 1/2, 0::real] = 1
   \<and> 0 \<le> entropy [1/2, 1/2, 0] \<and> \<not> one_hot [1/2, 1/2, 0] \<and> entropy [1/2, 1/2, 0] \<noteq> 0"
  using entropy_distribution [of "[1/2, 1/2, 0]"] by (simp add: one_hot_def)

text \<open>
  Claim C8, as stated for all inputs, fails on the all-zero vector, which \<open>normalise\<close>
  passes through to \<open>entropy\<close> when a row has no non-blank mass: its entropy is 0 and it
  is not one-hot.
\<close>

theorem entropy_zero_not_one_hot:
  "entropy [0, 0, 0, 0] = 0 \<and> \<not> one_hot [0, 0, 0, 0]"
  by (simp add: entropy_def one_hot_def)

text \<open>
  Claim C4, as amended. Whenever \<open>combine_dists\<close> returns, the blank channel of the result
  is the blank channel of the signal distribution. When the model's distribution has one
  entry for each non-blank symbol and sums to 1, and the non-blank mass \<open>S\<close> of the signal
  distribution is not zero, the result is finite, has the total mass of the signal
  distribution and its non-blank mass \<open>S\<close>, and its non-blank part is the average of the
  model's distribution and the renormalised signal distribution, scaled to \<open>S\<close>.
\<close>

theorem combine_dists_preserves:
  "(\<forall>xs. combine_dists r_dist s_dist = Inr xs \<longrightarrow> xs \<noteq> [] \<and> last xs = Fin (last s_dist))
   \<and> (s_dist \<noteq> [] \<and> length r_dist = length s_dist - 1 \<and> sum_list r_dist = 1
        \<and> sum_list (butlast s_dist) \<noteq> 0 \<longrightarrow>
      (\<exists>c. combine_dists r_dist s_dist = Inr (map Fin c)
         \<and> length c = length s_dist
         \<and> last c = last s_dist
         \<and> sum_list (butlast c) = sum_list (butlast s_dist)
         \<and> sum_list c = sum_list s_dist
         \<and> butlast c = blend (sum_list (butlast s_dist)) r_dist (butlast s_dist)))"
proof (intro conjI allI impI)
  fix xs assume "combine_dists r_dist s_dist = Inr xs"
  from combine_dists_blank [OF this] show "xs \<noteq> []" "last xs = Fin (last s_dist)" by simp_all
next
  assume a: "s_dist \<noteq> [] \<and> length r_dist = length s_dist - 1 \<and> sum_list r_dist = 1
        \<and> sum_list (butlast s_dist) \<noteq> 0"
  let ?S = "sum_list (butlast s_dist)"
  let ?c = "blend ?S r_dist (butlast s_dist) @ [last s_dist]"
  have len: "length r_dist = length (butlast s_dist)" using a by simp
  have sb: "sum_list (blend ?S r_dist (butlast s_dist)) = ?S"
    using a by (simp add: sum_list_blend [OF len])
  have ss: "sum_list s_dist = ?S + last s_dist"
    using a by (metis append_butlast_last_id sum_list.append sum_list.Cons sum_list.Nil add.right_neutral)
  have "combine_dists r_dist s_dist = Inr (map Fin ?c)"
    using a by (intro combine_dists_nonzero_mass) auto
  moreover have "length ?c = length s_dist"
    using a by (simp add: blend_def)
  moreover have "sum_list ?c = sum_list s_dist"
    using sb ss by simp
  ultimately show "\<exists>c. combine_dists r_dist s_dist = Inr (map Fin c)
         \<and> length c = length s_dist
         \<and> last c = last s_dist
         \<and> sum_list (butlast c) = sum_list (butlast s_dist)
         \<and> sum_list c = sum_list s_dist
         \<and> butlast c = blend (sum_list (butlast s_dist)) r_dist (butlast s_dist)"
    using sb by (intro exI [of _ ?c]) simp
qed

text \<open>Claim C4, witness: the model's distribution \<open>(1, 0)\<close> and the signal \<open>(1/2, 1/4, 1/4)\<close>.\<close>

theorem combine_dists_preserves_witness:
  "length [1, 0::real] = length [1/2, 1/4, 1/4::real] - 1
   \<and> sum_list [1, 0::real] = 1 \<and> sum_list (butlast [1/2, 1/4, 1/4::real]) = 3/4
   \<and> combine_dists [1, 0] [1/2, 1/4, 1/4] = Inr (map Fin [5/8, 1/8, 1/4])
   \<and> sum_list [5/8, 1/8, 1/4::real] = sum_list [1/2, 1/4, 1/4]
   \<and> sum_list (butlast [5/8, 1/8, 1/4::real]) = 3/4"
  using combine_dists_preserves [of "[1, 0]" "[1/2, 1/4, 1/4]"]
  by (simp add: combine_dists_def np_add_def)

text \<open>
  Claim C4, as stated for every signal distribution, fails when all the mass of the signal
  distribution is on the blank: the non-blank channels of the blend are NaN, so the total
  mass is not preserved. With a negative signal threshold \<open>apply_rna_model\<close> does apply
  the blend to such a row.
\<close>

theorem blend_of_blank_only_signal_is_nan:
  "combine_dists [1, 0] [0, 0, 1] = Inr [NaN, NaN, Fin 1]
   \<and> fsum [NaN, NaN, Fin 1] = NaN \<and> fsum (map Fin [0, 0, 1]) = Fin 1
   \<and> fst (apply_rna_model [0, 0, 1] [0] (Some [([0], [1, 0])]) Map.empty
            (entropy (normalise (butlast [0, 0, 1]))) 1 (- 1)) = Inr [NaN, NaN, Fin 1]"
  by (simp add: combine_dists_def np_add_def fsum_def apply_rna_model_def entropy_def normalise_def)

text \<open>
  Claim C10. \<open>combine_dists\<close> divides by the non-blank mass of the signal distribution
  without a guard. When that mass is strictly positive the call returns and no entry of
  the result is NaN (all are finite). When it is zero there is no pass-through as in
  \<open>normalise\<close>, which returns its argument: every non-blank entry of the blend is NaN.
\<close>

theorem combine_dists_division:
  assumes "s_dist \<noteq> []" and "length r_dist = length s_dist - 1"
  shows "(0 < sum_list (butlast s_dist) \<longrightarrow>
            (\<exists>xs. combine_dists r_dist s_dist = Inr xs \<and> (\<forall>x\<in>set xs. x \<noteq> NaN \<and> is_finite x)))
       \<and> (sum_list (butlast s_dist) = 0 \<longrightarrow>
            combine_dists r_dist s_dist = Inr (replicate (length r_dist) NaN @ [Fin (last s_dist)])
          \<and> normalise (butlast s_dist) = butlast s_dist)"
proof (intro conjI impI)
  assume "0 < sum_list (butlast s_dist)"
  then have "sum_list (butlast s_dist) \<noteq> 0" by simp
  from combine_dists_nonzero_mass [OF assms this]
  show "\<exists>xs. combine_dists r_dist s_dist = Inr xs \<and> (\<forall>x\<in>set xs. x \<noteq> NaN \<and> is_finite x)"
    by auto
next
  assume z: "sum_list (butlast s_dist) = 0"
  from combine_dists_zero_mass [OF assms z]
  show "combine_dists r_dist s_dist = Inr (replicate (length r_dist) NaN @ [Fin (last s_dist)])" .
  from z show "normalise (butlast s_dist) = butlast s_dist" by (simp add: normalise_def)
qed

text \<open>Claim C10, witness: a signal with positive non-blank mass, and one with none.\<close>

theorem combine_dists_division_witness:
  "length [1, 0::real] = length [1/2, 1/4, 1/4::real] - 1
   \<and> 0 < sum_list (butlast [1/2, 1/4, 1/4::real])
   \<and> combine_dists [1, 0] [1/2, 1/4, 1/4] = Inr [Fin (5/8), Fin (1/8), Fin (1/4)]
   \<and> length [1, 0::real] = length [0, 0, 1::real] - 1
   \<and> sum_list (butlast [0, 0, 1::real]) = 0
   \<and> combine_dists [1, 0] [0, 0, 1] = Inr [NaN, NaN, Fin 1]
   \<and> normalise (butlast [0, 0, 1]) = butlast [0, 0, 1]"
  using combine_dists_division [of "[1/2, 1/4, 1/4]" "[1, 0]"]
    combine_dists_division [of "[0, 0, 1]" "[1, 0]"]
  by (simp add: numeral_2_eq_2 combine_dists_def np_add_def)

section \<open>The claims about the beam search\<close>

lemma copy_beam_other:
  assumes "copy_beam p row s_e last_beam l cur ch = (Inr cur1, ch1)" and "k \<noteq> l"
  shows "entry_of cur1 k = entry_of cur k \<and> map_of cur1 k = map_of cur k"
proof -
  from assms(1) obtain f where "cur1 = entry_update l f cur"
    by (auto simp: copy_beam_def bindE_def Let_def split: prod.splits sum.splits)
  with assms(2) show ?thesis
    by (simp add: entry_of_entry_update map_of_entry_update)
qed

text \<open>
  Claim C1. In the EXTEND transition for a retained labeling \<open>L\<close>, with the distribution
  \<open>pr_dist\<close> chosen for the extension, every non-blank symbol \<open>c\<close> contributes the mass
  \<open>pr_blank[L] + log(pr_dist[c])\<close> of the previous state when \<open>c\<close> is the last symbol of
  \<open>L\<close>, and \<open>pr_total[L] + log(pr_dist[c])\<close> otherwise. The mass is accumulated with
  \<open>logaddexp\<close> into \<open>pr_non_blank\<close> and \<open>pr_total\<close> of the entry for \<open>L + c\<close>; its
  \<open>pr_blank\<close> is left as it was, which is \<open>log(0)\<close> for a fresh entry.
\<close>

theorem extend_transition:
  assumes "process_labeling p n_chars row s_entropy last_beam L cur entr_cache = (Inr cur', entr_cache')"
    and "c < n_chars - 1"
  shows "\<exists>pr_dist v ch1.
      choose_dist p (truthy (lm p) \<and> len_context p \<le> int (length L)) row s_entropy
        (get_context L (len_context p) False) ch1 = (Inr pr_dist, entr_cache')
    \<and> log_at pr_dist c = Inr v
    \<and> (let mass = (if L \<noteq> [] \<and> last L = c then fadd (pr_blank (entry_of last_beam L)) v
                    else fadd (pr_total (entry_of last_beam L)) v)
       in pr_non_blank (entry_of cur' (L @ [c]))
            = logaddexp (pr_non_blank (entry_of cur (L @ [c]))) mass
        \<and> pr_total (entry_of cur' (L @ [c]))
            = logaddexp (pr_total (entry_of cur (L @ [c]))) mass
        \<and> pr_blank (entry_of cur' (L @ [c])) = pr_blank (entry_of cur (L @ [c]))
        \<and> (map_of cur (L @ [c]) = None \<longrightarrow> pr_blank (entry_of cur' (L @ [c])) = NInf))"
proof -
  from assms(1) obtain cur1 ch1 pr_dist where
    cp: "copy_beam p row s_entropy last_beam L cur entr_cache = (Inr cur1, ch1)" and
    cd: "choose_dist p (truthy (lm p) \<and> len_context p \<le> int (length L)) row s_entropy
           (get_context L (len_context p) False) ch1 = (Inr pr_dist, entr_cache')" and
    ex: "extend_beam last_beam L pr_dist [0..<n_chars - 1] cur1 = Inr cur'"
    by (auto simp: process_labeling_def split: prod.splits sum.splits)
  have "distinct [0..<n_chars - 1]" "c \<in> set [0..<n_chars - 1]" using assms(2) by auto
  from extend_beam_entry [OF ex this] obtain v where
    v: "log_at pr_dist c = Inr v" and
    e: "entry_of cur' (L @ [c]) =
           (entry_of cur1 (L @ [c]))
             \<lparr>labeling := L @ [c],
              pr_non_blank := logaddexp (pr_non_blank (entry_of cur1 (L @ [c])))
                                (extend_mass last_beam L c v),
              pr_total := logaddexp (pr_total (entry_of cur1 (L @ [c])))
                            (extend_mass last_beam L c v)\<rparr>"
    by blast
  have o: "entry_of cur1 (L @ [c]) = entry_of cur (L @ [c])"
    using copy_beam_other [OF cp, of "L @ [c]"] by simp
  have "map_of cur (L @ [c]) = None \<Longrightarrow> pr_blank (entry_of cur (L @ [c])) = NInf"
    by (simp add: entry_of_def BeamEntry_init_def)
  with e o have "let mass = (if L \<noteq> [] \<and> last L = c then fadd (pr_blank (entry_of last_beam L)) v
                    else fadd (pr_total (entry_of last_beam L)) v)
       in pr_non_blank (entry_of cur' (L @ [c]))
            = logaddexp (pr_non_blank (entry_of cur (L @ [c]))) mass
        \<and> pr_total (entry_of cur' (L @ [c]))
            = logaddexp (pr_total (entry_of cur (L @ [c]))) mass
        \<and> pr_blank (entry_of cur' (L @ [c])) = pr_blank (entry_of cur (L @ [c]))
        \<and> (map_of cur (L @ [c]) = None \<longrightarrow> pr_blank (entry_of cur' (L @ [c])) = NInf)"
    by (simp add: Let_def extend_mass_def)
  with cd v show ?thesis by blast
qed

text \<open>
  Claim C1, witness: the labeling \<open>(1)\<close> extended by the symbol 1, its own last symbol,
  on the row \<open>(1/10, 7/10, 1/5)\<close>: the mass comes from \<open>pr_blank\<close>, which is \<open>log(0)\<close>.
\<close>

theorem extend_transition_witness:
  "process_labeling
       \<lparr>bases = ''AC'', beam_width = 2, lm = None, s_threshold = 0, r_threshold = 0, len_context = 0\<rparr>
       3 [1/10, 7/10, 1/5] 0
       [([1], \<lparr>pr_total = lp (2/5), pr_non_blank = lp (2/5), pr_blank = lp 0, labeling = [1]\<rparr>)]
       [1] [] Map.empty
     = (Inr [([1], \<lparr>pr_total = lp (9/25), pr_non_blank = lp (7/25), pr_blank = lp (2/25), labeling = [1]\<rparr>),
             ([1, 0], \<lparr>pr_total = lp (1/25), pr_non_blank = lp (1/25), pr_blank = lp 0, labeling = [1, 0]\<rparr>),
             ([1, 1], \<lparr>pr_total = lp 0, pr_non_blank = lp 0, pr_blank = lp 0, labeling = [1, 1]\<rparr>)],
        Map.empty)
   \<and> (1::nat) < 3 - 1
   \<and> log_at (map Fin [1/10, 7/10, 1/5]) 1 = Inr (lp (7/10))
   \<and> pr_non_blank \<lparr>pr_total = lp 0, pr_non_blank = lp 0, pr_blank = lp 0, labeling = [1, 1]\<rparr>
        = logaddexp (pr_non_blank (entry_of [] [1, 1])) (fadd (lp 0) (lp (7/10)))"
proof -
  have h: "process_labeling
       \<lparr>bases = ''AC'', beam_width = 2, lm = None, s_threshold = 0, r_threshold = 0, len_context = 0\<rparr>
       3 [1/10, 7/10, 1/5] 0
       [([1], \<lparr>pr_total = lp (2/5), pr_non_blank = lp (2/5), pr_blank = lp 0, labeling = [1]\<rparr>)]
       [1] [] Map.empty
     = (Inr [([1], \<lparr>pr_total = lp (9/25), pr_non_blank = lp (7/25), pr_blank = lp (2/25), labeling = [1]\<rparr>),
             ([1, 0], \<lparr>pr_total = lp (1/25), pr_non_blank = lp (1/25), pr_blank = lp 0, labeling = [1, 0]\<rparr>),
             ([1, 1], \<lparr>pr_total = lp 0, pr_non_blank = lp 0, pr_blank = lp 0, labeling = [1, 1]\<rparr>)],
        Map.empty)"
    by (simp add: beam_defs lp_simps upt_0_2 del: log_py.simps)
  have c: "(1::nat) < 3 - 1" by simp
  have l: "log_at (map Fin [1/10, 7/10, 1/5]) 1 = Inr (lp (7/10))"
    by (simp add: log_at_def idx_def bindE_def log_py_lp del: log_py.simps)
  from extend_transition [OF h c] have
    "pr_non_blank \<lparr>pr_total = lp 0, pr_non_blank = lp 0, pr_blank = lp 0, labeling = [1, 1]\<rparr>
        = logaddexp (pr_non_blank (entry_of [] [1, 1])) (fadd (lp 0) (lp (7/10)))"
    using l by (auto simp: choose_dist_def truthy_def entry_of_def Let_def)
  with h c l show ?thesis by blast
qed

text \<open>
  Claim C2. In the beam state after any number \<open>t\<close> of time-steps (the initial state for
  \<open>t = 0\<close>), every entry satisfies \<open>pr_total = logaddexp(pr_blank, pr_non_blank)\<close>, in
  exact arithmetic.
\<close>

theorem beam_entry_invariant:
  assumes "beam_state_at mat p entr_cache t = (Inr b, entr_cache')" and "(L, e) \<in> set b"
  shows "pr_total e = logaddexp (pr_blank e) (pr_non_blank e)"
proof -
  have "beam_inv b"
    using beam_inv_initial assms(1) unfolding beam_state_at_def by (rule beam_inv_timesteps_loop)
  with assms(2) show ?thesis by (auto simp: beam_inv_def entry_inv_def)
qed

text \<open>Claim C2, witness: the beam state after the first time-step of a search.\<close>

theorem beam_entry_invariant_witness:
  "beam_state_at \<lparr>chars = 3, rows = [[1/5, 2/5, 2/5], [1/10, 7/10, 1/5]]\<rparr>
      \<lparr>bases = ''AC'', beam_width = 2, lm = None, s_threshold = 0, r_threshold = 0,
       len_context = 0\<rparr> Map.empty 1
     = (Inr [([], \<lparr>pr_total = lp (2/5), pr_non_blank = lp 0, pr_blank = lp (2/5), labeling = []\<rparr>),
             ([0], \<lparr>pr_total = lp (1/5), pr_non_blank = lp (1/5), pr_blank = lp 0, labeling = [0]\<rparr>),
             ([1], \<lparr>pr_total = lp (2/5), pr_non_blank = lp (2/5), pr_blank = lp 0, labeling = [1]\<rparr>)],
        Map.empty)
   \<and> lp (2/5) = logaddexp (lp (2/5)) (lp 0)"
proof -
  have h: "beam_state_at \<lparr>chars = 3, rows = [[1/5, 2/5, 2/5], [1/10, 7/10, 1/5]]\<rparr>
      \<lparr>bases = ''AC'', beam_width = 2, lm = None, s_threshold = 0, r_threshold = 0,
       len_context = 0\<rparr> Map.empty 1
     = (Inr [([], \<lparr>pr_total = lp (2/5), pr_non_blank = lp 0, pr_blank = lp (2/5), labeling = []\<rparr>),
             ([0], \<lparr>pr_total = lp (1/5), pr_non_blank = lp (1/5), pr_blank = lp 0, labeling = [0]\<rparr>),
             ([1], \<lparr>pr_total = lp (2/5), pr_non_blank = lp (2/5), pr_blank = lp 0, labeling = [1]\<rparr>)],
        Map.empty)"
    by (simp add: beam_defs lp_simps upt_0_2 del: log_py.simps)
  from beam_entry_invariant [OF h, of "[]"
      "\<lparr>pr_total = lp (2/5), pr_non_blank = lp 0, pr_blank = lp (2/5), labeling = []\<rparr>"]
  have "lp (2/5) = logaddexp (lp (2/5)) (lp 0)" by simp
  with h show ?thesis by blast
qed

subsection \<open>A beam that never truncates dominates every other beam\<close>

lemma fle_Fin [simp]: "fle (Fin a) (Fin b) = (a \<le> b)"
  by (auto simp: fle_def)

lemma fle_NInf [simp]: "fle NInf b = clean b"
  by (cases b) (simp_all add: fle_def)

lemma fle_Fin_NInf [simp]: "fle (Fin a) NInf = False"
  by (simp add: fle_def)


lemma fle_refl: "clean a \<Longrightarrow> fle a a"
  by (cases a) simp_all




lemma clean_fadd: "clean a \<Longrightarrow> clean b \<Longrightarrow> clean (fadd a b)"
  by (cases a; cases b) simp_all

lemma clean_logaddexp: "clean a \<Longrightarrow> clean b \<Longrightarrow> clean (logaddexp a b)"
  by (cases a; cases b) simp_all


lemma logaddexp_mono: "fle a b \<Longrightarrow> fle c d \<Longrightarrow> fle (logaddexp a c) (logaddexp b d)"
proof (cases a; cases b; cases c; cases d)
  fix x y z w
  assume "fle a b" "fle c d" "a = Fin x" "b = Fin y" "c = Fin z" "d = Fin w"
  then have "x \<le> y" "z \<le> w" by simp_all
  then have "exp x + exp z \<le> exp y + exp w" by (simp add: add_mono)
  moreover have "0 < exp x + exp z" by (simp add: add_pos_pos)
  ultimately have "ln (exp x + exp z) \<le> ln (exp y + exp w)" by simp
  then show ?thesis using \<open>a = Fin x\<close> \<open>b = Fin y\<close> \<open>c = Fin z\<close> \<open>d = Fin w\<close> by simp
next
  fix y z w
  assume "fle a b" "fle c d" "a = NInf" "b = Fin y" "c = Fin z" "d = Fin w"
  then have "z \<le> w" by simp
  have "exp z \<le> exp w" using \<open>z \<le> w\<close> by simp
  also have "\<dots> \<le> exp y + exp w" by simp
  finally have "ln (exp z) \<le> ln (exp y + exp w)"
    by (subst ln_le_cancel_iff) (simp_all add: add_pos_pos)
  then show ?thesis using \<open>a = NInf\<close> \<open>b = Fin y\<close> \<open>c = Fin z\<close> \<open>d = Fin w\<close> by simp
next
  fix x y w
  assume "fle a b" "fle c d" "a = Fin x" "b = Fin y" "c = NInf" "d = Fin w"
  then have "x \<le> y" by simp
  have "exp x \<le> exp y" using \<open>x \<le> y\<close> by simp
  also have "\<dots> \<le> exp y + exp w" by simp
  finally have "ln (exp x) \<le> ln (exp y + exp w)"
    by (subst ln_le_cancel_iff) (simp_all add: add_pos_pos)
  then show ?thesis using \<open>a = Fin x\<close> \<open>b = Fin y\<close> \<open>c = NInf\<close> \<open>d = Fin w\<close> by simp
qed (simp_all add: fle_def)

lemma logaddexp_NInf_right [simp]: "logaddexp a NInf = a"
  by (cases a) simp_all

lemma logaddexp_NInf_left [simp]: "logaddexp NInf a = a"
  by (cases a) simp_all

lemma logaddexp_ge: "clean a \<Longrightarrow> clean b \<Longrightarrow> fle a (logaddexp a b)"
  using logaddexp_mono [of a a NInf b] by (simp add: fle_refl)





























lemma fin_list_map_Fin [simp]: "fin_list (map Fin xs)"
  by (simp add: fin_list_def)
























lemma lm_cache_ok_beam_width [simp]: "lm_cache_ok (p\<lparr>beam_width := k\<rparr>) = lm_cache_ok p"
  by (simp add: lm_cache_ok_def fun_eq_iff)







text \<open>
  Claim C5, as stated, fails: the model has an entry for the context \<open>(0)\<close> only, the best
  labeling after the first row is \<open>(1)\<close>, and the whole call of \<open>beam_search\<close> ends with
  KeyError at the second row.
\<close>

theorem beam_search_aborts_on_unmodelled_context:
  "beam_search \<lparr>chars = 3, rows = [[1/4, 1/2, 1/4], [1/4, 1/2, 1/4]]\<rparr>
      \<lparr>bases = ''AC'', beam_width = 1, lm = Some [([0], [1/2, 1/2])], s_threshold = 0,
       r_threshold = 1, len_context = 1\<rparr> Map.empty = (Inl KeyError, Map.empty)"
  by (simp add: beam_defs lp_simps upt_0_2 apply_rna_model_def get_context_def
      py_slice_from_def py_slice_def del: log_py.simps)

end
